theory Spec2Isabelle
  imports Main "HOL-Library.Word" "HOL-Library.AList"
begin

section \<open>Primitive types\<close>

text \<open>
  \<^verbatim>\<open>nano::uint128_t\<close> (weights, tallies) is an unchecked 128-bit unsigned integer, so
  \<open>+\<close> and \<open>-\<close> wrap. Block hashes and accounts are 256-bit values; vote timestamps
  are \<^verbatim>\<open>uint64_t\<close>. Points of \<^verbatim>\<open>std::chrono::steady_clock\<close> are counted in
  nanoseconds; one call of a member function reads the clock as one instant.
\<close>

type_synonym uint128_t = "128 word"
type_synonym uint64_t = "64 word"
type_synonym block_hash = "256 word"
type_synonym account = "256 word"
type_synonym time_point = int

text \<open>
  Modelled from the spec: the comparison operator of \<^verbatim>\<open>nano::block_hash\<close> is declared
  in \<^verbatim>\<open>nano/lib/numbers.hpp\<close>, outside the election's sources. The spec calls it the
  lexicographic order of hashes; on the 32 bytes of a hash, most significant first,
  that is the unsigned order of the 256-bit value.
\<close>

definition hash_less :: "block_hash \<Rightarrow> block_hash \<Rightarrow> bool" where
  "hash_less a b = (a < b)"

definition is_zero :: "block_hash \<Rightarrow> bool" where
  "is_zero h = (h = 0)"

text \<open>\<^verbatim>\<open>std::numeric_limits<uint64_t>::max ()\<close>, the timestamp of a final vote.\<close>

definition uint64_max :: uint64_t where
  "uint64_max = 18446744073709551615"

text \<open>\<^verbatim>\<open>std::chrono::seconds\<close> converted to the clock's nanoseconds.\<close>

definition seconds :: "nat \<Rightarrow> int" where
  "seconds s = int s * 1000000000"

text \<open>
  \<^verbatim>\<open>std::chrono::duration_cast<std::chrono::milliseconds>\<close> of a duration of the steady
  clock: whole milliseconds, rounded towards zero.
\<close>

definition duration_cast_milliseconds :: "int \<Rightarrow> int" where
  "duration_cast_milliseconds d = sgn d * (\<bar>d\<bar> div 1000000)"

section \<open>Blocks\<close>

text \<open>\<^verbatim>\<open>nano::block_type\<close>; the type \<^verbatim>\<open>open\<close> is written \<open>open_block\<close>.\<close>

datatype block_type = invalid | not_a_block | send | receive | open_block | change | state

text \<open>
  A block, by the accessors the election and the block processor call on it:
  \<^verbatim>\<open>hash ()\<close>, \<^verbatim>\<open>type ()\<close>, \<^verbatim>\<open>previous ()\<close>, \<^verbatim>\<open>account ()\<close>, \<^verbatim>\<open>link ()\<close>,
  \<^verbatim>\<open>destination ()\<close>, \<^verbatim>\<open>sideband ().details ().is_send ()\<close> and
  \<^verbatim>\<open>sideband ().details ().epoch ()\<close> (as its underlying integer).
\<close>

record block =
  block_hash :: block_hash
  block_type :: block_type
  block_previous :: block_hash
  block_account :: account
  block_link :: block_hash
  block_destination :: account
  block_is_send :: bool
  block_epoch :: nat

section \<open>Election: data\<close>

datatype state_t = "passive" | active | confirmed | expired_confirmed | expired_unconfirmed

datatype election_status_type =
  ongoing | active_confirmed_quorum | active_confirmation_height | inactive_confirmation_height | stopped

datatype vote_source = live | cache

record vote_info =
  time :: time_point
  timestamp :: uint64_t
  hash :: block_hash

record election_vote_result =
  replay :: bool
  processed :: bool

record election_status =
  status_winner :: block
  status_tally :: uint128_t
  status_final_tally :: uint128_t
  status_election_end :: int
  status_election_duration :: int
  status_confirmation_request_count :: nat
  status_block_count :: nat
  status_voter_count :: nat
  status_election_status_type :: election_status_type

text \<open>
  Calls the election makes on its collaborators (block processor, vote generators,
  network, the table of active elections, statistics), in the order they are made.
\<close>

datatype effect =
    Live_vote_action account
  | Stats_inc_vote vote_source
  | Block_processor_force block
  | Final_generator_add block_hash
  | History_erase_root
  | Winner_details_emplace block_hash
  | Process_confirmed election_status
  | Publish_filter_clear block
  | Flood_block block
  | Active_erase_hash block_hash

text \<open>
  \<^verbatim>\<open>std::unordered_map\<close> members are association lists with distinct keys; a loop
  over such a member visits the entries in the order the node gives for it.
  \<^verbatim>\<open>nano::tally_t\<close> is an ordered map keyed by weight, largest first.
\<close>

type_synonym tally_t = "(uint128_t \<times> block) list"

record election =
  state_m :: state_t
  state_start :: time_point
  election_start :: time_point
  status :: election_status
  last_votes :: "(account \<times> vote_info) list"
  last_blocks :: "(block_hash \<times> block) list"
  last_tally :: "(block_hash \<times> uint128_t) list"
  final_weight :: uint128_t
  is_quorum :: bool
  confirmation_request_count :: nat
  effects :: "effect list"

text \<open>
  The node as the election reads it during one call: network parameters, the ledger's
  representative weights, the online-weight oracle, the clocks, and the collaborators'
  answers. The election's root is fixed, so queries by (root, hash) take the hash only.
  \<open>system_now\<close> is the system clock in milliseconds since its epoch.
  The order in which a \<^verbatim>\<open>std::unordered_map\<close> is iterated is not fixed by the language:
  \<open>votes_order\<close>, \<open>weights_order\<close> and \<open>blocks_order\<close> give, for the entries of a map,
  the order in which a loop of this call visits them (a permutation of the entries, see
  \<open>iterates_all\<close>).
\<close>

record node =
  is_dev_network :: bool
  minimum_principal_weight :: uint128_t
  ledger_weight :: "account \<Rightarrow> uint128_t"
  online_reps_trended :: uint128_t
  online_reps_delta :: uint128_t
  steady_now :: time_point
  system_now :: int
  block_confirmed :: "block_hash \<Rightarrow> bool"
  final_votes_confirmation_canary :: bool
  enable_voting :: bool
  wallets_reps_voting :: nat
  history_votes :: "block_hash \<Rightarrow> account list"
  election_winner_details_count :: "block_hash \<Rightarrow> nat"
  inactive_vote_cache_find :: "block_hash \<Rightarrow> uint128_t option"
  account_null :: account
  votes_order :: "(account \<times> vote_info) list \<Rightarrow> (account \<times> vote_info) list"
  weights_order :: "(block_hash \<times> uint128_t) list \<Rightarrow> (block_hash \<times> uint128_t) list"
  blocks_order :: "(block_hash \<times> block) list \<Rightarrow> (block_hash \<times> block) list"


datatype error = Empty_tally | Release_assert_failed | Out_of_range

section \<open>Election: state machine\<close>

fun valid_change :: "state_t \<Rightarrow> state_t \<Rightarrow> bool" where
  "valid_change passive desired_a =
     (case desired_a of
        active \<Rightarrow> True
      | confirmed \<Rightarrow> True
      | expired_unconfirmed \<Rightarrow> True
      | _ \<Rightarrow> False)"
| "valid_change active desired_a =
     (case desired_a of
        confirmed \<Rightarrow> True
      | expired_unconfirmed \<Rightarrow> True
      | _ \<Rightarrow> False)"
| "valid_change confirmed desired_a =
     (case desired_a of
        expired_confirmed \<Rightarrow> True
      | _ \<Rightarrow> False)"
| "valid_change expired_unconfirmed desired_a = False"
| "valid_change expired_confirmed desired_a = False"

text \<open>
  \<^verbatim>\<open>state_m.compare_exchange_strong (expected_a, desired_a)\<close> stores the desired state
  and yields true when the current state is the expected one, and leaves it otherwise.
  The result of \<open>state_change\<close> is true on failure.
\<close>

definition state_change :: "node \<Rightarrow> election \<Rightarrow> state_t \<Rightarrow> state_t \<Rightarrow> bool \<times> election" where
  "state_change n e expected_a desired_a =
     (if valid_change expected_a desired_a then
        (if state_m e = expected_a
         then (False, e\<lparr>state_m := desired_a, state_start := steady_now n\<rparr>)
         else (True, e))
      else (True, e))"


section \<open>Election: tally and quorum\<close>

definition emit :: "effect \<Rightarrow> election \<Rightarrow> election" where
  "emit x e = e\<lparr>effects := effects e @ [x]\<rparr>"

definition cooldown_time :: "node \<Rightarrow> uint128_t \<Rightarrow> nat" where
  "cooldown_time n weight =
     (let online_stake = online_reps_trended n in
      if weight > online_stake div 20 then 1
      else if weight > online_stake div 100 then 5
      else 15)"

text \<open>
  \<open>have_quorum\<close> dereferences \<^verbatim>\<open>tally_a.begin ()\<close>: an empty tally is outside its
  contract (\<open>Empty_tally\<close>). \<^verbatim>\<open>release_assert\<close> aborts the process when the first
  weight is below the second (\<open>Release_assert_failed\<close>).
\<close>

definition have_quorum :: "node \<Rightarrow> tally_t \<Rightarrow> error + bool" where
  "have_quorum n tally_a =
     (case tally_a of
        [] \<Rightarrow> Inl Empty_tally
      | (first, _) # i \<Rightarrow>
          let second = (case i of [] \<Rightarrow> 0 | (w, _) # _ \<Rightarrow> w);
              delta_l = online_reps_delta n
          in if first \<ge> second then Inr (first - second \<ge> delta_l)
             else Inl Release_assert_failed)"

text \<open>
  Modelled from the spec: \<^verbatim>\<open>nano::tally_t\<close> is declared in \<^verbatim>\<open>nano/secure/common.hpp\<close>,
  outside the election's sources; the spec describes it as an ordered structure keyed
  descending by accumulated weight. \<open>tally_emplace\<close> is \<^verbatim>\<open>emplace\<close> on such a map: the
  entry goes to its place in the descending order, and a weight that is already a key
  keeps its entry.
\<close>

fun tally_emplace :: "uint128_t \<Rightarrow> block \<Rightarrow> tally_t \<Rightarrow> tally_t" where
  "tally_emplace amount b [] = [(amount, b)]"
| "tally_emplace amount b ((k, v) # xs) =
     (if amount = k then (k, v) # xs
      else if k < amount then (amount, b) # (k, v) # xs
      else (k, v) # tally_emplace amount b xs)"

text \<open>\<^verbatim>\<open>weights[h] += w\<close> on an unordered map: a missing key starts at zero.\<close>

definition weight_add :: "block_hash \<Rightarrow> uint128_t \<Rightarrow> (block_hash \<times> uint128_t) list \<Rightarrow> (block_hash \<times> uint128_t) list" where
  "weight_add h w m = AList.update h ((case map_of m h of None \<Rightarrow> 0 | Some a \<Rightarrow> a) + w) m"

definition block_weights_of :: "node \<Rightarrow> (account \<times> vote_info) list \<Rightarrow> (block_hash \<times> uint128_t) list" where
  "block_weights_of n votes =
     fold (\<lambda>(account, info). weight_add (hash info) (ledger_weight n account)) votes []"

definition final_weights_of :: "node \<Rightarrow> (account \<times> vote_info) list \<Rightarrow> (block_hash \<times> uint128_t) list" where
  "final_weights_of n votes =
     fold (\<lambda>(account, info) m.
             if timestamp info = uint64_max then weight_add (hash info) (ledger_weight n account) m
             else m) votes []"

definition tally_of :: "(block_hash \<times> block) list \<Rightarrow> (block_hash \<times> uint128_t) list \<Rightarrow> tally_t" where
  "tally_of blocks block_weights =
     fold (\<lambda>(h, amount) result.
             case map_of blocks h of
               Some b \<Rightarrow> tally_emplace amount b result
             | None \<Rightarrow> result) block_weights []"

text \<open>\<open>tally_impl\<close> also writes the mutable members \<open>last_tally\<close> and \<open>final_weight\<close>.\<close>

definition tally_impl :: "node \<Rightarrow> election \<Rightarrow> tally_t \<times> election" where
  "tally_impl n e =
     (let block_weights = block_weights_of n (votes_order n (last_votes e));
          final_weights_l = final_weights_of n (votes_order n (last_votes e));
          e1 = e\<lparr>last_tally := block_weights\<rparr>;
          result = tally_of (last_blocks e1) (weights_order n block_weights)
      in (result,
          (case result of
             [] \<Rightarrow> e1
           | (_, winner) # _ \<Rightarrow>
               (if final_weights_l \<noteq> [] then
                  (case map_of final_weights_l (block_hash winner) of
                     Some find_final \<Rightarrow> e1\<lparr>final_weight := find_final\<rparr>
                   | None \<Rightarrow> e1)
                else e1))))"

section \<open>Election: votes and candidate blocks\<close>

text \<open>
  \<open>election_confirmed\<close> is \<^verbatim>\<open>confirmed (lock)\<close>: the node's answer for the winner's hash.
  \<open>node_voting\<close> is the test \<^verbatim>\<open>enable_voting && wallets.reps ().voting > 0\<close>.
\<close>

definition election_confirmed :: "node \<Rightarrow> election \<Rightarrow> bool" where
  "election_confirmed n e = block_confirmed n (block_hash (status_winner (status e)))"

definition node_voting :: "node \<Rightarrow> bool" where
  "node_voting n = (enable_voting n \<and> wallets_reps_voting n > 0)"

definition remove_votes :: "node \<Rightarrow> election \<Rightarrow> block_hash \<Rightarrow> election" where
  "remove_votes n e hash_a =
     (if node_voting n then
        emit History_erase_root
          (e\<lparr>last_votes := fold AList.delete (history_votes n hash_a) (last_votes e)\<rparr>)
      else e)"

definition remove_block :: "election \<Rightarrow> block_hash \<Rightarrow> election" where
  "remove_block e hash_a =
     (if block_hash (status_winner (status e)) \<noteq> hash_a then
        (case map_of (last_blocks e) hash_a of
           Some existing \<Rightarrow>
             (emit (Publish_filter_clear existing)
                (e\<lparr>last_votes := filter (\<lambda>(a, i). hash i \<noteq> hash_a) (last_votes e)\<rparr>))
             \<lparr>last_blocks := AList.delete hash_a (last_blocks e)\<rparr>
         | None \<Rightarrow> e)
      else e)"

text \<open>
  \<^verbatim>\<open>state_m.exchange (confirmed)\<close> is the first operand of the condition, so the state
  is stored whatever the previous state and the table of winners say.
\<close>

definition confirm_once :: "node \<Rightarrow> election \<Rightarrow> election_status_type \<Rightarrow> election" where
  "confirm_once n e type_a =
     (let previous = state_m e;
          e1 = e\<lparr>state_m := confirmed\<rparr>;
          winner_hash = block_hash (status_winner (status e1))
      in if previous \<noteq> confirmed \<and> election_winner_details_count n winner_hash = 0 then
           (let e2 = emit (Winner_details_emplace winner_hash) e1;
                status_l = (status e2)
                  \<lparr>status_election_end := system_now n,
                   status_election_duration :=
                     duration_cast_milliseconds (steady_now n - election_start e2),
                   status_confirmation_request_count := confirmation_request_count e2,
                   status_block_count := length (last_blocks e2),
                   status_voter_count := length (last_votes e2),
                   status_election_status_type := type_a\<rparr>
            in emit (Process_confirmed status_l) (e2\<lparr>status := status_l\<rparr>))
         else e1)"

definition force_confirm :: "node \<Rightarrow> election \<Rightarrow> election_status_type \<Rightarrow> error + election" where
  "force_confirm n e type_a =
     (if is_dev_network n then Inr (confirm_once n e type_a) else Inl Release_assert_failed)"

definition confirm_if_quorum :: "node \<Rightarrow> election \<Rightarrow> error + election" where
  "confirm_if_quorum n e =
     (case tally_impl n e of (tally_l, e1) \<Rightarrow>
        (case tally_l of
           [] \<Rightarrow> Inl Empty_tally
         | (winner_weight, block_l) # _ \<Rightarrow>
             (let winner_hash_l = block_hash block_l;
                  e2 = e1\<lparr>status := (status e1)
                          \<lparr>status_tally := winner_weight, status_final_tally := final_weight e1\<rparr>\<rparr>;
                  status_winner_hash_l = block_hash (status_winner (status e2));
                  sum = fold (\<lambda>(w, _) s. s + w) tally_l 0;
                  e3 = (if sum \<ge> online_reps_delta n \<and> winner_hash_l \<noteq> status_winner_hash_l then
                          emit (Block_processor_force block_l)
                            (remove_votes n
                               (e2\<lparr>status := (status e2)\<lparr>status_winner := block_l\<rparr>\<rparr>)
                               status_winner_hash_l)
                        else e2)
              in case have_quorum n tally_l of
                   Inl err \<Rightarrow> Inl err
                 | Inr False \<Rightarrow> Inr e3
                 | Inr True \<Rightarrow>
                     (let e4 = (if final_votes_confirmation_canary n then
                                  (let was_quorum = is_quorum e3;
                                       e3' = e3\<lparr>is_quorum := True\<rparr>
                                   in if \<not> was_quorum \<and> node_voting n
                                      then emit (Final_generator_add
                                                   (block_hash (status_winner (status e3')))) e3'
                                      else e3')
                                else e3)
                      in if \<not> final_votes_confirmation_canary n
                            \<or> final_weight e4 \<ge> online_reps_delta n
                         then Inr (confirm_once n e4 active_confirmed_quorum)
                         else Inr e4))))"

text \<open>
  \<open>vote_record\<close> is the rest of \<open>vote\<close> from the store of the last-vote entry on:
  the path of a vote that no check rejected.
\<close>

definition vote_record :: "node \<Rightarrow> election \<Rightarrow> account \<Rightarrow> uint64_t \<Rightarrow> block_hash \<Rightarrow> vote_source \<Rightarrow> error + election_vote_result \<times> election" where
  "vote_record n e rep timestamp_a block_hash_a vote_source_a =
     (let e1 = e\<lparr>last_votes := AList.update rep
                   \<lparr>time = steady_now n, timestamp = timestamp_a, hash = block_hash_a\<rparr>
                   (last_votes e)\<rparr>;
          e2 = (if vote_source_a = live then emit (Live_vote_action rep) e1 else e1);
          e3 = emit (Stats_inc_vote vote_source_a) e2
      in if \<not> election_confirmed n e3 then
           (case confirm_if_quorum n e3 of
              Inl err \<Rightarrow> Inl err
            | Inr e4 \<Rightarrow> Inr (\<lparr>replay = False, processed = True\<rparr>, e4))
         else Inr (\<lparr>replay = False, processed = True\<rparr>, e3))"

definition vote :: "node \<Rightarrow> election \<Rightarrow> account \<Rightarrow> uint64_t \<Rightarrow> block_hash \<Rightarrow> vote_source \<Rightarrow> error + election_vote_result \<times> election" where
  "vote n e rep timestamp_a block_hash_a vote_source_a =
     (let weight = ledger_weight n rep in
      if \<not> is_dev_network n \<and> weight \<le> minimum_principal_weight n then
        Inr (\<lparr>replay = False, processed = False\<rparr>, e)
      else
        (case map_of (last_votes e) rep of
           Some last_vote_l \<Rightarrow>
             if timestamp last_vote_l > timestamp_a then
               Inr (\<lparr>replay = True, processed = False\<rparr>, e)
             else if timestamp last_vote_l = timestamp_a
                     \<and> \<not> hash_less (hash last_vote_l) block_hash_a then
               Inr (\<lparr>replay = True, processed = False\<rparr>, e)
             else
               (let max_vote = (timestamp_a = uint64_max \<and> timestamp last_vote_l < timestamp_a);
                    past_cooldown =
                      (if vote_source_a = live
                       then time last_vote_l \<le> steady_now n - seconds (cooldown_time n weight)
                       else True)
                in if \<not> max_vote \<and> \<not> past_cooldown then
                     Inr (\<lparr>replay = False, processed = False\<rparr>, e)
                   else vote_record n e rep timestamp_a block_hash_a vote_source_a)
         | None \<Rightarrow> vote_record n e rep timestamp_a block_hash_a vote_source_a))"


text \<open>
  Modelled from the spec: \<^verbatim>\<open>max_blocks\<close> is a constant of \<^verbatim>\<open>nano/node/election.hpp\<close>;
  the spec gives the cap on candidate blocks as 10.
\<close>

definition max_blocks :: nat where
  "max_blocks = 10"

text \<open>
  \<open>replace_by_weight\<close> sorts a copy of \<open>last_tally\<close> by ascending weight, and reads
  \<^verbatim>\<open>sorted.front ()\<close> and \<^verbatim>\<open>sorted[1]\<close>; a read beyond the end is \<open>Out_of_range\<close>.
  \<^verbatim>\<open>std::sort\<close> may order equal weights either way; \<open>sort_key\<close> keeps them in the
  order in which \<open>last_tally\<close> was copied, which the node gives. The loop over the
  candidate blocks stops at the first block, in the order the node gives, that has no
  tally and is not the winner. The result is true as soon as a block was
  chosen for replacement. The mutex released in the middle is not modelled: the
  function runs as one step.
\<close>

definition replace_by_weight :: "node \<Rightarrow> election \<Rightarrow> block_hash \<Rightarrow> error + bool \<times> election" where
  "replace_by_weight n e hash_a =
     (let winner_hash = block_hash (status_winner (status e));
          sorted = sort_key snd (weights_order n (last_tally e));
          inactive_tally = (case inactive_vote_cache_find n hash_a of Some t \<Rightarrow> t | None \<Rightarrow> 0);
          replaced_block =
            (if inactive_tally > 0 \<and> length sorted < max_blocks then
               (case find (\<lambda>(h, b). h \<notin> set (map fst sorted) \<and> h \<noteq> winner_hash)
                       (blocks_order n (last_blocks e)) of
                  Some (h, b) \<Rightarrow> Inr h
                | None \<Rightarrow> Inr 0)
             else if inactive_tally > 0 then
               (case sorted of
                  [] \<Rightarrow> Inl Out_of_range
                | front # rest \<Rightarrow>
                    if inactive_tally > snd front then
                      (if fst front \<noteq> winner_hash then Inr (fst front)
                       else (case rest of
                               [] \<Rightarrow> Inl Out_of_range
                             | second # _ \<Rightarrow>
                                 if inactive_tally > snd second then Inr (fst second) else Inr 0))
                    else Inr 0)
             else Inr 0)
      in case replaced_block of
           Inl err \<Rightarrow> Inl err
         | Inr r \<Rightarrow>
             if \<not> is_zero r then Inr (True, remove_block (emit (Active_erase_hash r) e) r)
             else Inr (False, e))"

text \<open>
  The result of \<open>publish\<close> is true when the block was not added as a new candidate.
  Where a new key is kept in the list of a map is of no consequence: every loop over
  the map takes its order from the node.
\<close>

definition publish :: "node \<Rightarrow> election \<Rightarrow> block \<Rightarrow> error + bool \<times> election" where
  "publish n e block_a =
     (let result = election_confirmed n e;
          step1 =
            (if \<not> result \<and> length (last_blocks e) \<ge> max_blocks
                \<and> map_of (last_blocks e) (block_hash block_a) = None then
               (case replace_by_weight n e (block_hash block_a) of
                  Inl err \<Rightarrow> Inl err
                | Inr (replaced, e1) \<Rightarrow>
                    if \<not> replaced then Inr (True, emit (Publish_filter_clear block_a) e1)
                    else Inr (result, e1))
             else Inr (result, e))
      in case step1 of
           Inl err \<Rightarrow> Inl err
         | Inr (result1, e1) \<Rightarrow>
             if \<not> result1 then
               (case map_of (last_blocks e1) (block_hash block_a) of
                  None \<Rightarrow>
                    Inr (result1, e1\<lparr>last_blocks := last_blocks e1 @ [(block_hash block_a, block_a)]\<rparr>)
                | Some existing \<Rightarrow>
                    (let e2 = e1\<lparr>last_blocks := AList.update (block_hash block_a) block_a (last_blocks e1)\<rparr>
                     in if block_hash (status_winner (status e2)) = block_hash block_a then
                          Inr (True, emit (Flood_block block_a)
                                       (e2\<lparr>status := (status e2)\<lparr>status_winner := block_a\<rparr>\<rparr>))
                        else Inr (True, e2)))
             else Inr (result1, e1))"

text \<open>
  The constructor. Modelled from the spec: the member initialisers of
  \<^verbatim>\<open>nano/node/election.hpp\<close> (initial state \<open>passive\<close>, clocks started at construction,
  empty tally, no quorum seen, zeroed status) are outside the election's sources.
\<close>

definition election_ctor :: "node \<Rightarrow> block \<Rightarrow> election" where
  "election_ctor n block_a =
     \<lparr>state_m = passive,
      state_start = steady_now n,
      election_start = steady_now n,
      status =
        \<lparr>status_winner = block_a,
         status_tally = 0,
         status_final_tally = 0,
         status_election_end = system_now n,
         status_election_duration = 0,
         status_confirmation_request_count = 0,
         status_block_count = 1,
         status_voter_count = 0,
         status_election_status_type = ongoing\<rparr>,
      last_votes = [(account_null n, \<lparr>time = steady_now n, timestamp = 0, hash = block_hash block_a\<rparr>)],
      last_blocks = [(block_hash block_a, block_a)],
      last_tally = [],
      final_weight = 0,
      is_quorum = False,
      confirmation_request_count = 0,
      effects = []\<rparr>"


section \<open>Block processor\<close>

datatype process_result =
    progress | gap_previous | gap_source | gap_epoch_open_pending | old | bad_signature
  | negative_spend | unreceivable | fork | opened_burn_account | balance_mismatch
  | representative_mismatch | block_position | insufficient_work

datatype stat_type = type_ledger | type_blockprocessor

datatype stat_detail =
    detail_overfill | detail_insufficient_work | detail_gap_previous | detail_gap_source
  | detail_old | detail_fork | detail_progress | detail_gap_epoch_open_pending
  | detail_bad_signature | detail_negative_spend | detail_unreceivable
  | detail_opened_burn_account | detail_balance_mismatch | detail_representative_mismatch
  | detail_block_position

text \<open>
  Modelled from the spec: \<^verbatim>\<open>nano::to_stat_detail (nano::process_result)\<close> is defined
  outside the block processor's sources; the spec counts one statistic per result kind.
\<close>

fun to_stat_detail :: "process_result \<Rightarrow> stat_detail" where
  "to_stat_detail progress = detail_progress"
| "to_stat_detail gap_previous = detail_gap_previous"
| "to_stat_detail gap_source = detail_gap_source"
| "to_stat_detail gap_epoch_open_pending = detail_gap_epoch_open_pending"
| "to_stat_detail old = detail_old"
| "to_stat_detail bad_signature = detail_bad_signature"
| "to_stat_detail negative_spend = detail_negative_spend"
| "to_stat_detail unreceivable = detail_unreceivable"
| "to_stat_detail fork = detail_fork"
| "to_stat_detail opened_burn_account = detail_opened_burn_account"
| "to_stat_detail balance_mismatch = detail_balance_mismatch"
| "to_stat_detail representative_mismatch = detail_representative_mismatch"
| "to_stat_detail block_position = detail_block_position"
| "to_stat_detail insufficient_work = detail_insufficient_work"

text \<open>
  The processor's queues, the statistics counters (\<^verbatim>\<open>uint64_t\<close>), and its collaborators
  as far as the processor writes to them. Modelled from the spec: the unchecked table
  (\<^verbatim>\<open>nano::unchecked_map\<close>, only declared in \<^verbatim>\<open>unchecked_map.hpp\<close>) stores a block under
  the dependency it waits for; \<open>unchecked\<close> lists the stored pairs in the order of the
  \<^verbatim>\<open>put\<close> calls, and \<open>unchecked_triggered\<close> the dependencies passed to \<^verbatim>\<open>trigger\<close>.
  The signature verification stage is the queue of the blocks handed to it.
\<close>

record block_processor =
  blocks :: "block list"
  forced :: "block list"
  state_block_signature_verification :: "block list"
  stats :: "stat_type \<times> stat_detail \<Rightarrow> uint64_t"
  "unchecked" :: "(block_hash \<times> block) list"
  unchecked_triggered :: "block_hash list"
  gap_cache_erased :: "block_hash list"
  block_arrival :: "block_hash list"

text \<open>
  What the processor reads: the configured capacity, the work validator (true means
  error), the ledger's answer for a block, the ledger's source of a block, and the
  underlying value of \<^verbatim>\<open>nano::epoch::max\<close>.
\<close>

record processor_env =
  block_processor_full_size :: nat
  validate_entry :: "block \<Rightarrow> bool"
  ledger_process :: "block \<Rightarrow> process_result"
  ledger_block_source :: "block \<Rightarrow> block_hash"
  epoch_max :: nat

definition stats_inc :: "stat_type \<Rightarrow> stat_detail \<Rightarrow> block_processor \<Rightarrow> block_processor" where
  "stats_inc t d p = p\<lparr>stats := (stats p)((t, d) := stats p (t, d) + 1)\<rparr>"

definition unchecked_put :: "block_hash \<Rightarrow> block \<Rightarrow> block_processor \<Rightarrow> block_processor" where
  "unchecked_put dependency b p = p\<lparr>unchecked := unchecked p @ [(dependency, b)]\<rparr>"

definition size_processor :: "block_processor \<Rightarrow> nat" where
  "size_processor p =
     length (blocks p) + length (state_block_signature_verification p) + length (forced p)"

definition full :: "processor_env \<Rightarrow> block_processor \<Rightarrow> bool" where
  "full c p = (size_processor p \<ge> block_processor_full_size c)"

definition half_full :: "processor_env \<Rightarrow> block_processor \<Rightarrow> bool" where
  "half_full c p = (size_processor p \<ge> block_processor_full_size c div 2)"

definition add_impl :: "block \<Rightarrow> block_processor \<Rightarrow> block_processor" where
  "add_impl b p =
     (if block_type b = state \<or> block_type b = open_block then
        p\<lparr>state_block_signature_verification := state_block_signature_verification p @ [b]\<rparr>
      else p\<lparr>blocks := blocks p @ [b]\<rparr>)"

definition add :: "processor_env \<Rightarrow> block \<Rightarrow> block_processor \<Rightarrow> block_processor" where
  "add c b p =
     (if full c p then stats_inc type_blockprocessor detail_overfill p
      else if validate_entry c b then stats_inc type_blockprocessor detail_insufficient_work p
      else add_impl b p)"

definition process_active :: "processor_env \<Rightarrow> block \<Rightarrow> block_processor \<Rightarrow> block_processor" where
  "process_active c incoming p =
     add c incoming (p\<lparr>block_arrival := block_arrival p @ [block_hash incoming]\<rparr>)"

definition force :: "block \<Rightarrow> block_processor \<Rightarrow> block_processor" where
  "force block_a p = p\<lparr>forced := forced p @ [block_a]\<rparr>"

definition queue_unchecked :: "block_hash \<Rightarrow> block_processor \<Rightarrow> block_processor" where
  "queue_unchecked hash_or_account_a p =
     p\<lparr>unchecked_triggered := unchecked_triggered p @ [hash_or_account_a],
       gap_cache_erased := gap_cache_erased p @ [hash_or_account_a]\<rparr>"

text \<open>
  \<open>process_one\<close>: the ledger's result decides what is done with the block; the log lines
  write no state and are left out. The result code is returned with the processor.
\<close>

definition process_one :: "processor_env \<Rightarrow> block \<Rightarrow> block_processor \<Rightarrow> process_result \<times> block_processor" where
  "process_one c b p =
     (let result = ledger_process c b;
          p1 =
            (case result of
               progress \<Rightarrow>
                 (let p' = queue_unchecked (block_hash b) p
                  in if block_type b = send
                        \<or> (block_type b = state \<and> block_is_send b \<and> block_epoch b < epoch_max c)
                     then queue_unchecked
                            (if is_zero (block_destination b) then block_link b
                             else block_destination b) p'
                     else p')
             | gap_previous \<Rightarrow>
                 stats_inc type_ledger detail_gap_previous (unchecked_put (block_previous b) b p)
             | gap_source \<Rightarrow>
                 stats_inc type_ledger detail_gap_source (unchecked_put (ledger_block_source c b) b p)
             | gap_epoch_open_pending \<Rightarrow>
                 stats_inc type_ledger detail_gap_source (unchecked_put (block_account b) b p)
             | old \<Rightarrow> stats_inc type_ledger detail_old p
             | bad_signature \<Rightarrow> p
             | negative_spend \<Rightarrow> p
             | unreceivable \<Rightarrow> p
             | fork \<Rightarrow> stats_inc type_ledger detail_fork p
             | opened_burn_account \<Rightarrow> p
             | balance_mismatch \<Rightarrow> p
             | representative_mismatch \<Rightarrow> p
             | block_position \<Rightarrow> p
             | insufficient_work \<Rightarrow> p)
      in (result, stats_inc type_blockprocessor (to_stat_detail result) p1))"


section \<open>Sequences of calls and reachable states\<close>

text \<open>
  The calls that reach an election from the vote processor and the block processor,
  each with the node as it is at that call. \<open>run_calls\<close> makes them in order and stops
  at the first call that does not return.
\<close>

datatype election_call =
    Call_vote node account uint64_t block_hash vote_source
  | Call_publish node block

fun run_calls :: "election_call list \<Rightarrow> election \<Rightarrow> error + election" where
  "run_calls [] e = Inr e"
| "run_calls (Call_vote n rep ts h src # calls) e =
     (case vote n e rep ts h src of
        Inl err \<Rightarrow> Inl err
      | Inr (r, e') \<Rightarrow> run_calls calls e')"
| "run_calls (Call_publish n b # calls) e =
     (case publish n e b of
        Inl err \<Rightarrow> Inl err
      | Inr (r, e') \<Rightarrow> run_calls calls e')"



definition last_vote_timestamp :: "error + election \<Rightarrow> account \<Rightarrow> uint64_t option" where
  "last_vote_timestamp x v =
     (case x of
        Inl err \<Rightarrow> None
      | Inr e \<Rightarrow> map_option timestamp (map_of (last_votes e) v))"

text \<open>
  \<open>blocks_keyed\<close>: every candidate block is stored under its own hash.
  \<open>winner_tracked\<close>: the hash of the status winner is a key of \<open>last_blocks\<close>.
\<close>

definition blocks_keyed :: "election \<Rightarrow> bool" where
  "blocks_keyed e = list_all (\<lambda>(h, b). block_hash b = h) (last_blocks e)"

definition winner_tracked :: "election \<Rightarrow> bool" where
  "winner_tracked e = (block_hash (status_winner (status e)) \<in> set (map fst (last_blocks e)))"

definition tracked :: "election \<Rightarrow> bool" where
  "tracked e = (blocks_keyed e \<and> winner_tracked e)"

text \<open>
  The states an election can be in: built by the constructor and changed by its member
  functions. \<open>reach_other\<close> stands for the members that are not modelled
  (\<^verbatim>\<open>transition_time\<close>, the broadcasts, \<^verbatim>\<open>send_confirm_req\<close>); they write neither
  the status winner nor \<open>last_blocks\<close>. The private members are steps of their own, so
  that the states between the two halves of \<open>replace_by_weight\<close>, which releases the
  mutex before it calls \<open>remove_block\<close>, are reachable states too.
\<close>

inductive reachable :: "election \<Rightarrow> bool" where
  reach_ctor: "reachable (election_ctor n block_a)"
| reach_vote: "reachable e \<Longrightarrow> vote n e rep ts h src = Inr (r, e') \<Longrightarrow> reachable e'"
| reach_publish: "reachable e \<Longrightarrow> publish n e block_a = Inr (p, e') \<Longrightarrow> reachable e'"
| reach_confirm_if_quorum: "reachable e \<Longrightarrow> confirm_if_quorum n e = Inr e' \<Longrightarrow> reachable e'"
| reach_remove_block: "reachable e \<Longrightarrow> reachable (remove_block e hash_a)"
| reach_replace_by_weight:
    "reachable e \<Longrightarrow> replace_by_weight n e hash_a = Inr (p, e') \<Longrightarrow> reachable e'"
| reach_force_confirm: "reachable e \<Longrightarrow> force_confirm n e type_a = Inr e' \<Longrightarrow> reachable e'"
| reach_state_change:
    "reachable e \<Longrightarrow> state_change n e expected_a desired_a = (p, e') \<Longrightarrow> reachable e'"
| reach_tally: "reachable e \<Longrightarrow> reachable (snd (tally_impl n e))"
| reach_other:
    "reachable e \<Longrightarrow> last_blocks e' = last_blocks e \<Longrightarrow>
     status_winner (status e') = status_winner (status e) \<Longrightarrow> reachable e'"

section \<open>Sample values\<close>

definition example_block :: "block_hash \<Rightarrow> block" where
  "example_block h =
     \<lparr>block_hash = h, block_type = state, block_previous = 0, block_account = 0,
      block_link = 0, block_destination = 0, block_is_send = False, block_epoch = 0\<rparr>"

definition example_node :: node where
  "example_node =
     \<lparr>is_dev_network = False,
      minimum_principal_weight = 10,
      ledger_weight = (\<lambda>a. if a = 7 then 40 else if a = 8 then 60 else 0),
      online_reps_trended = 1000,
      online_reps_delta = 100,
      steady_now = 20000000000,
      system_now = 5000,
      block_confirmed = (\<lambda>h. False),
      final_votes_confirmation_canary = False,
      enable_voting = True,
      wallets_reps_voting = 1,
      history_votes = (\<lambda>h. if h = 1 then [7] else []),
      election_winner_details_count = (\<lambda>h. 0),
      inactive_vote_cache_find = (\<lambda>h. None),
      account_null = 0,
      votes_order = (\<lambda>votes. votes),
      weights_order = (\<lambda>weights. weights),
      blocks_order = (\<lambda>bs. bs)\<rparr>"

definition example_env :: processor_env where
  "example_env =
     \<lparr>block_processor_full_size = 2,
      validate_entry = (\<lambda>b. block_hash b = 3),
      ledger_process = (\<lambda>b. if block_hash b = 1 then gap_previous
                               else if block_hash b = 2 then gap_source
                               else if block_hash b = 4 then gap_epoch_open_pending
                               else bad_signature),
      ledger_block_source = block_link,
      epoch_max = 4\<rparr>"

definition example_processor :: block_processor where
  "example_processor =
     \<lparr>blocks = [], forced = [], state_block_signature_verification = [],
      stats = (\<lambda>k. 0), unchecked = [], unchecked_triggered = [], gap_cache_erased = [],
      block_arrival = []\<rparr>"


section \<open>State changes\<close>

lemma valid_change_iff:
  "valid_change expected_a desired_a \<longleftrightarrow>
     (expected_a, desired_a) \<in>
       {(passive, active), (passive, confirmed), (passive, expired_unconfirmed),
        (active, confirmed), (active, expired_unconfirmed), (confirmed, expired_confirmed)}"
  by (cases expected_a; cases desired_a) simp_all

text \<open>
  Claim C8. \<open>state_change\<close> returns false exactly when the transition is legal for
  \<open>valid_change\<close> and the current state is the expected one; the state is then the
  desired one and \<open>state_start\<close> is the current time. In every other case it returns
  true and the election is unchanged.
\<close>

theorem state_change_result:
  "(fst (state_change n e expected_a desired_a) = False \<longleftrightarrow>
      valid_change expected_a desired_a \<and> state_m e = expected_a)
   \<and> (valid_change expected_a desired_a \<and> state_m e = expected_a \<longrightarrow>
        state_change n e expected_a desired_a =
          (False, e\<lparr>state_m := desired_a, state_start := steady_now n\<rparr>))
   \<and> (\<not> (valid_change expected_a desired_a \<and> state_m e = expected_a) \<longrightarrow>
        state_change n e expected_a desired_a = (True, e))"
  by (simp add: state_change_def)

theorem state_change_result_witness:
  "valid_change passive active
   \<and> state_m (election_ctor example_node (example_block 1)) = passive
   \<and> state_change example_node (election_ctor example_node (example_block 1)) passive active
       = (False, (election_ctor example_node (example_block 1))
                   \<lparr>state_m := active, state_start := steady_now example_node\<rparr>)
   \<and> \<not> valid_change active passive
   \<and> state_change example_node (election_ctor example_node (example_block 1)) active passive
       = (True, election_ctor example_node (example_block 1))"
  using state_change_result
          [of example_node "election_ctor example_node (example_block 1)" "passive" active]
        state_change_result
          [of example_node "election_ctor example_node (example_block 1)" active "passive"]
  by (simp add: election_ctor_def)

section \<open>Quorum\<close>

text \<open>
  Claim C1. On a non-empty tally ordered descending by weight, \<open>have_quorum\<close> returns
  whether the highest weight minus the second-highest (0 when there is none) is at
  least the online-weight quorum delta; the difference is the one of the natural
  numbers. With delta 100 the answer is true for 150 against 40 and false for 150
  against 60.
\<close>

theorem have_quorum_margin:
  assumes "sorted_wrt (\<ge>) (map fst ((first, b) # rest))"
  shows "have_quorum n ((first, b) # rest) =
           Inr (online_reps_delta n \<le> first - (case rest of [] \<Rightarrow> 0 | (w, _) # _ \<Rightarrow> w))
         \<and> (online_reps_delta n \<le> first - (case rest of [] \<Rightarrow> 0 | (w, _) # _ \<Rightarrow> w) \<longleftrightarrow>
              unat (online_reps_delta n)
                \<le> unat first - unat (case rest of [] \<Rightarrow> 0 | (w, _) # _ \<Rightarrow> w))
         \<and> (online_reps_delta n = 100 \<longrightarrow>
              have_quorum n [(150, b), (40, b')] = Inr True
              \<and> have_quorum n [(150, b), (60, b')] = Inr False)"
proof -
  define second where "second = (case rest of [] \<Rightarrow> 0 | (w, _) # _ \<Rightarrow> w)"
  have le: "second \<le> first"
    using assms by (cases rest) (auto simp: second_def)
  have result: "have_quorum n ((first, b) # rest) = Inr (online_reps_delta n \<le> first - second)"
    using le by (cases rest) (auto simp: have_quorum_def second_def)
  have plain: "online_reps_delta n \<le> first - second \<longleftrightarrow>
                 unat (online_reps_delta n) \<le> unat first - unat second"
    using le by (simp add: word_le_nat_alt unat_sub)
  have examples: "online_reps_delta n = 100 \<Longrightarrow>
      have_quorum n [(150, b), (40, b')] = Inr True
      \<and> have_quorum n [(150, b), (60, b')] = Inr False"
    by (simp add: have_quorum_def)
  show ?thesis
    using result plain examples unfolding second_def by blast
qed

theorem have_quorum_margin_witness:
  "sorted_wrt (\<ge>) (map fst [(150 :: uint128_t, example_block 1), (40, example_block 2)])
   \<and> online_reps_delta example_node = 100
   \<and> have_quorum example_node [(150, example_block 1), (40, example_block 2)] = Inr True
   \<and> have_quorum example_node [(150, example_block 1), (60, example_block 2)] = Inr False"
  using have_quorum_margin
          [of 150 "example_block 1" "[(40, example_block 2)]" example_node "example_block 2"]
  by (simp add: example_node_def)

lemma tally_emplace_keys:
  "fst ` set (tally_emplace amount b xs) = insert amount (fst ` set xs)"
proof (induction xs)
  case Nil
  then show ?case by simp
next
  case (Cons x xs)
  obtain k v where x: "x = (k, v)" by (cases x)
  show ?case
    using Cons.IH by (simp add: x insert_commute)
qed

lemma tally_emplace_sorted:
  "sorted_wrt (>) (map fst xs) \<Longrightarrow> sorted_wrt (>) (map fst (tally_emplace amount b xs))"
proof (induction xs)
  case Nil
  then show ?case by simp
next
  case (Cons x xs)
  obtain k v where x: "x = (k, v)" by (cases x)
  show ?case
  proof (cases "amount = k")
    case True
    with Cons.prems x show ?thesis by simp
  next
    case False
    show ?thesis
    proof (cases "k < amount")
      case True
      with Cons.prems x False show ?thesis by auto
    next
      case ge: False
      with False have lt: "amount < k" by simp
      have tail: "sorted_wrt (>) (map fst (tally_emplace amount b xs))"
        using Cons by simp
      have "\<forall>y \<in> set (map fst (tally_emplace amount b xs)). y < k"
        using Cons.prems x lt by (auto simp: tally_emplace_keys)
      with tail x False ge show ?thesis by simp
    qed
  qed
qed

lemma tally_fold_sorted:
  "sorted_wrt (>) (map fst acc) \<Longrightarrow>
   sorted_wrt (>) (map fst (fold (\<lambda>(h, amount) result.
        case map_of bs h of Some b \<Rightarrow> tally_emplace amount b result | None \<Rightarrow> result) ws acc))"
  by (induction ws arbitrary: acc) (auto simp: tally_emplace_sorted split: option.splits)

lemma tally_of_sorted: "sorted_wrt (>) (map fst (tally_of bs ws))"
  unfolding tally_of_def by (rule tally_fold_sorted) simp

lemma fst_tally_impl:
  "fst (tally_impl n e) =
     tally_of (last_blocks e) (weights_order n (block_weights_of n (votes_order n (last_votes e))))"
  by (simp add: tally_impl_def Let_def)

text \<open>
  Claim C10. In a non-empty tally ordered descending by weight the first weight is at
  least the second (when there is one), so the assertion of \<open>have_quorum\<close> holds, a
  result is returned, and the subtraction does not wrap around. The tally computed by
  \<open>tally_impl\<close> is ordered descending. An empty tally is outside the contract of
  \<open>have_quorum\<close>.
\<close>

theorem tally_descending_no_underflow:
  assumes "sorted_wrt (\<ge>) (map fst ((first, b) # rest))"
  shows "(case rest of [] \<Rightarrow> 0 | (w, _) # _ \<Rightarrow> w) \<le> first
         \<and> have_quorum n ((first, b) # rest) \<noteq> Inl Release_assert_failed
         \<and> (\<exists>q. have_quorum n ((first, b) # rest) = Inr q)
         \<and> unat (first - (case rest of [] \<Rightarrow> 0 | (w, _) # _ \<Rightarrow> w))
             = unat first - unat (case rest of [] \<Rightarrow> 0 | (w, _) # _ \<Rightarrow> w)
         \<and> unat (case rest of [] \<Rightarrow> 0 | (w, _) # _ \<Rightarrow> w) \<le> unat first
         \<and> have_quorum n [] = Inl Empty_tally
         \<and> sorted_wrt (\<ge>) (map fst (fst (tally_impl n' e)))"
proof -
  define second where "second = (case rest of [] \<Rightarrow> 0 | (w, _) # _ \<Rightarrow> w)"
  have le: "second \<le> first"
    using assms by (cases rest) (auto simp: second_def)
  have ret: "have_quorum n ((first, b) # rest) = Inr (online_reps_delta n \<le> first - second)"
    using le by (cases rest) (auto simp: have_quorum_def second_def)
  have sub: "unat (first - second) = unat first - unat second"
    using le by (simp add: unat_sub)
  have le_nat: "unat second \<le> unat first"
    using le by (simp add: word_le_nat_alt)
  have empty: "have_quorum n [] = Inl Empty_tally"
    by (simp add: have_quorum_def)
  have strict: "sorted_wrt (>) (map fst (fst (tally_impl n' e)))"
    by (simp add: fst_tally_impl tally_of_sorted)
  have desc: "sorted_wrt (\<ge>) (map fst (fst (tally_impl n' e)))"
    by (rule sorted_wrt_mono_rel [OF _ strict]) simp
  show ?thesis
    using le ret sub le_nat empty desc unfolding second_def by simp
qed

theorem tally_descending_no_underflow_witness:
  "sorted_wrt (\<ge>) (map fst [(150 :: uint128_t, example_block 1), (60, example_block 2)])
   \<and> have_quorum example_node [(150, example_block 1), (60, example_block 2)] = Inr False
   \<and> unat (150 - 60 :: uint128_t) = 90
   \<and> fst (tally_impl example_node (election_ctor example_node (example_block 1)))
       = [(0, example_block 1)]"
  using tally_descending_no_underflow
          [of 150 "example_block 1" "[(60, example_block 2)]" example_node example_node
              "election_ctor example_node (example_block 1)"]
  by (simp add: have_quorum_def example_node_def fst_tally_impl election_ctor_def
        block_weights_of_def weight_add_def tally_of_def example_block_def)

section \<open>Block processor: admission and gaps\<close>

text \<open>
  Claim C6, amended. \<open>add\<close> on a processor whose pending blocks (verification
  stage, block queue and forced queue together) number at least the configured capacity
  only increments the overfill counter; when the work check fails it only increments
  the insufficient-work counter; otherwise the block is enqueued and nothing is
  counted: a state or open block goes to the signature verification stage, any other
  block straight to the block queue that is committed.
\<close>

theorem add_outcomes:
  "(full c p \<longleftrightarrow> block_processor_full_size c
        \<le> length (blocks p) + length (state_block_signature_verification p) + length (forced p))
   \<and> (full c p \<longrightarrow>
        add c b p = p\<lparr>stats := (stats p)((type_blockprocessor, detail_overfill) :=
                        stats p (type_blockprocessor, detail_overfill) + 1)\<rparr>)
   \<and> (\<not> full c p \<and> validate_entry c b \<longrightarrow>
        add c b p = p\<lparr>stats := (stats p)((type_blockprocessor, detail_insufficient_work) :=
                        stats p (type_blockprocessor, detail_insufficient_work) + 1)\<rparr>)
   \<and> (\<not> full c p \<and> \<not> validate_entry c b \<longrightarrow>
        add c b p =
          (if block_type b = state \<or> block_type b = open_block
           then p\<lparr>state_block_signature_verification :=
                    state_block_signature_verification p @ [b]\<rparr>
           else p\<lparr>blocks := blocks p @ [b]\<rparr>)
        \<and> size_processor (add c b p) = size_processor p + 1
        \<and> stats (add c b p) = stats p)"
  by (simp add: add_def full_def size_processor_def stats_inc_def add_impl_def)

theorem add_outcomes_witness:
  "\<not> full example_env example_processor
   \<and> \<not> validate_entry example_env (example_block 1)
   \<and> add example_env (example_block 1) example_processor
       = example_processor\<lparr>state_block_signature_verification := [example_block 1]\<rparr>
   \<and> validate_entry example_env (example_block 3)
   \<and> stats (add example_env (example_block 3) example_processor)
        (type_blockprocessor, detail_insufficient_work) = 1
   \<and> full example_env (example_processor\<lparr>blocks := [example_block 1, example_block 2]\<rparr>)
   \<and> stats (add example_env (example_block 5)
              (example_processor\<lparr>blocks := [example_block 1, example_block 2]\<rparr>))
        (type_blockprocessor, detail_overfill) = 1
   \<and> blocks (add example_env (example_block 5)
              (example_processor\<lparr>blocks := [example_block 1, example_block 2]\<rparr>))
       = [example_block 1, example_block 2]
   \<and> \<not> validate_entry example_env ((example_block 1)\<lparr>block_type := receive\<rparr>)
   \<and> add example_env ((example_block 1)\<lparr>block_type := receive\<rparr>) example_processor
       = example_processor\<lparr>blocks := [(example_block 1)\<lparr>block_type := receive\<rparr>]\<rparr>"
  using add_outcomes [of example_env example_processor "example_block 1"]
        add_outcomes [of example_env example_processor "example_block 3"]
        add_outcomes [of example_env example_processor "(example_block 1)\<lparr>block_type := receive\<rparr>"]
        add_outcomes [of example_env "example_processor\<lparr>blocks := [example_block 1, example_block 2]\<rparr>"
                         "example_block 5"]
  by (simp add: example_env_def example_processor_def example_block_def full_def size_processor_def)

text \<open>
  Claim C6 as stated fails for the legacy blocks: a send block that is admitted is not
  handed to the signature verification stage, it is appended to the block queue.
\<close>

theorem add_verification_counterexample:
  "\<not> full example_env example_processor
   \<and> \<not> validate_entry example_env ((example_block 1)\<lparr>block_type := send\<rparr>)
   \<and> state_block_signature_verification
        (add example_env ((example_block 1)\<lparr>block_type := send\<rparr>) example_processor) = []
   \<and> blocks (add example_env ((example_block 1)\<lparr>block_type := send\<rparr>) example_processor)
       = [(example_block 1)\<lparr>block_type := send\<rparr>]"
  by (simp add: add_def add_impl_def full_def size_processor_def stats_inc_def
        example_env_def example_processor_def example_block_def)

text \<open>
  Claim C7. \<open>process_one\<close> stores a block whose ledger result is a gap in the
  unchecked table under the missing dependency: the previous hash for \<open>gap_previous\<close>,
  the ledger's source of the block for \<open>gap_source\<close>, the account for
  \<open>gap_epoch_open_pending\<close>. Every other result leaves the unchecked table as it was.
\<close>

theorem process_one_unchecked:
  "fst (process_one c b p) = ledger_process c b
   \<and> (ledger_process c b = gap_previous \<longrightarrow>
        unchecked (snd (process_one c b p)) = unchecked p @ [(block_previous b, b)])
   \<and> (ledger_process c b = gap_source \<longrightarrow>
        unchecked (snd (process_one c b p)) = unchecked p @ [(ledger_block_source c b, b)])
   \<and> (ledger_process c b = gap_epoch_open_pending \<longrightarrow>
        unchecked (snd (process_one c b p)) = unchecked p @ [(block_account b, b)])
   \<and> (ledger_process c b \<notin> {gap_previous, gap_source, gap_epoch_open_pending} \<longrightarrow>
        unchecked (snd (process_one c b p)) = unchecked p)"
  by (cases "ledger_process c b")
     (simp_all add: process_one_def Let_def stats_inc_def unchecked_put_def queue_unchecked_def)

theorem process_one_unchecked_witness:
  "ledger_process example_env (example_block 1) = gap_previous
   \<and> unchecked (snd (process_one example_env (example_block 1) example_processor))
       = [(0, example_block 1)]
   \<and> ledger_process example_env (example_block 2) = gap_source
   \<and> unchecked (snd (process_one example_env ((example_block 2)\<lparr>block_link := 9\<rparr>) example_processor))
       = [(9, (example_block 2)\<lparr>block_link := 9\<rparr>)]
   \<and> ledger_process example_env (example_block 4) = gap_epoch_open_pending
   \<and> unchecked (snd (process_one example_env ((example_block 4)\<lparr>block_account := 6\<rparr>) example_processor))
       = [(6, (example_block 4)\<lparr>block_account := 6\<rparr>)]
   \<and> ledger_process example_env (example_block 5) = bad_signature
   \<and> unchecked (snd (process_one example_env (example_block 5) example_processor)) = []"
  using process_one_unchecked [of example_env "example_block 1" example_processor]
        process_one_unchecked [of example_env "(example_block 2)\<lparr>block_link := 9\<rparr>" example_processor]
        process_one_unchecked [of example_env "(example_block 4)\<lparr>block_account := 6\<rparr>" example_processor]
        process_one_unchecked [of example_env "example_block 5" example_processor]
  by (simp add: example_env_def example_processor_def example_block_def)

section \<open>Vote acceptance\<close>

lemma vote_record_processed:
  "vote_record n e rep ts h src = Inr (r, e') \<Longrightarrow> r = \<lparr>replay = False, processed = True\<rparr>"
  by (auto simp: vote_record_def Let_def split: if_splits sum.splits)


lemma vote_gate:
  "\<not> is_dev_network n \<Longrightarrow> ledger_weight n rep \<le> minimum_principal_weight n \<Longrightarrow>
   vote n e rep ts h src = Inr (\<lparr>replay = False, processed = False\<rparr>, e)"
  by (simp add: vote_def)

lemma tally_impl_minimum:
  "tally_impl (n\<lparr>minimum_principal_weight := m\<rparr>) e = tally_impl n e"
  by (simp add: tally_impl_def block_weights_of_def final_weights_of_def Let_def
      cong: if_cong list.case_cong sum.case_cong bool.case_cong prod.case_cong option.case_cong)

lemma have_quorum_minimum:
  "have_quorum (n\<lparr>minimum_principal_weight := m\<rparr>) t = have_quorum n t"
  by (simp add: have_quorum_def Let_def
      cong: if_cong list.case_cong sum.case_cong bool.case_cong prod.case_cong option.case_cong)

lemma remove_votes_minimum:
  "remove_votes (n\<lparr>minimum_principal_weight := m\<rparr>) e h = remove_votes n e h"
  by (simp add: remove_votes_def node_voting_def)

lemma confirm_once_minimum:
  "confirm_once (n\<lparr>minimum_principal_weight := m\<rparr>) e t = confirm_once n e t"
  by (simp add: confirm_once_def Let_def
      cong: if_cong list.case_cong sum.case_cong bool.case_cong prod.case_cong option.case_cong)

lemma confirm_if_quorum_minimum:
  "confirm_if_quorum (n\<lparr>minimum_principal_weight := m\<rparr>) e = confirm_if_quorum n e"
  by (simp add: confirm_if_quorum_def tally_impl_minimum have_quorum_minimum
        remove_votes_minimum confirm_once_minimum node_voting_def
      cong: if_cong list.case_cong sum.case_cong bool.case_cong prod.case_cong)

lemma vote_record_minimum:
  "vote_record (n\<lparr>minimum_principal_weight := m\<rparr>) e rep ts h src = vote_record n e rep ts h src"
  by (simp add: vote_record_def confirm_if_quorum_minimum election_confirmed_def Let_def
      cong: if_cong list.case_cong sum.case_cong bool.case_cong prod.case_cong option.case_cong)

lemma vote_dev_minimum:
  "is_dev_network n \<Longrightarrow>
   vote (n\<lparr>minimum_principal_weight := m\<rparr>) e rep ts h src = vote n e rep ts h src"
  by (simp add: vote_def vote_record_minimum cooldown_time_def Let_def
      cong: if_cong list.case_cong sum.case_cong bool.case_cong prod.case_cong option.case_cong)


lemmas election_eval =
  vote_def vote_record_def confirm_if_quorum_def tally_impl_def block_weights_of_def
  final_weights_of_def tally_of_def weight_add_def have_quorum_def remove_votes_def
  node_voting_def confirm_once_def election_confirmed_def emit_def cooldown_time_def
  election_ctor_def example_node_def example_block_def hash_less_def uint64_max_def
  seconds_def Let_def

text \<open>
  Claim C5. Off the dev network, \<open>vote\<close> rejects a vote of a representative whose
  ledger weight is below the minimum principal weight with replay false and processed
  false, and the election is unchanged. On the dev network the minimum weight plays no
  part in the outcome, and a first vote of any representative is processed.
\<close>

theorem vote_minimum_weight:
  "(\<not> is_dev_network n \<and> ledger_weight n rep < minimum_principal_weight n \<longrightarrow>
      vote n e rep ts h src = Inr (\<lparr>replay = False, processed = False\<rparr>, e))
   \<and> (is_dev_network n \<longrightarrow>
        vote (n\<lparr>minimum_principal_weight := m\<rparr>) e rep ts h src = vote n e rep ts h src)
   \<and> (is_dev_network n \<and> map_of (last_votes e) rep = None
        \<and> vote n e rep ts h src = Inr (r, e') \<longrightarrow> processed r \<and> \<not> replay r)"
proof -
  have gate: "\<not> is_dev_network n \<and> ledger_weight n rep < minimum_principal_weight n \<Longrightarrow>
      vote n e rep ts h src = Inr (\<lparr>replay = False, processed = False\<rparr>, e)"
    by (rule vote_gate) (auto intro: less_imp_le)
  have first_vote: "is_dev_network n \<and> map_of (last_votes e) rep = None
      \<and> vote n e rep ts h src = Inr (r, e') \<Longrightarrow> processed r \<and> \<not> replay r"
    using vote_record_processed [of n e rep ts h src r e'] by (auto simp: vote_def)
  show ?thesis
    using gate first_vote vote_dev_minimum [of n m e rep ts h src] by blast
qed

theorem vote_minimum_weight_witness:
  "\<not> is_dev_network example_node
   \<and> ledger_weight example_node 9 < minimum_principal_weight example_node
   \<and> vote example_node (election_ctor example_node (example_block 1)) 9 5 1 live
       = Inr (\<lparr>replay = False, processed = False\<rparr>, election_ctor example_node (example_block 1))
   \<and> is_dev_network (example_node\<lparr>is_dev_network := True\<rparr>)
   \<and> (case vote (example_node\<lparr>is_dev_network := True\<rparr>)
              (election_ctor example_node (example_block 1)) 9 5 1 live of
         Inr (r, e') \<Rightarrow> processed r \<and> map_of (last_votes e') 9
                           = Some \<lparr>time = 20000000000, timestamp = 5, hash = 1\<rparr>
       | Inl err \<Rightarrow> False)"
  using vote_minimum_weight
          [of example_node 9 "election_ctor example_node (example_block 1)" 5 1 live]
  by (simp add: election_eval)


section \<open>What a call leaves in place\<close>

lemma tally_impl_fields [simp]:
  "last_votes (snd (tally_impl n e)) = last_votes e"
  "last_blocks (snd (tally_impl n e)) = last_blocks e"
  "status (snd (tally_impl n e)) = status e"
  "state_m (snd (tally_impl n e)) = state_m e"
  "effects (snd (tally_impl n e)) = effects e"
  by (auto simp: tally_impl_def Let_def split: list.splits option.splits)

lemma confirm_once_fields [simp]:
  "last_votes (confirm_once n e t) = last_votes e"
  "last_blocks (confirm_once n e t) = last_blocks e"
  "status_winner (status (confirm_once n e t)) = status_winner (status e)"
  by (auto simp: confirm_once_def emit_def Let_def)

lemma remove_votes_fields [simp]:
  "last_blocks (remove_votes n e h) = last_blocks e"
  "status (remove_votes n e h) = status e"
  "last_votes (remove_votes n e h) =
     (if node_voting n then fold AList.delete (history_votes n h) (last_votes e) else last_votes e)"
  by (auto simp: remove_votes_def emit_def)

lemma emit_fields [simp]:
  "last_votes (emit x e) = last_votes e"
  "last_blocks (emit x e) = last_blocks e"
  "status (emit x e) = status e"
  "state_m (emit x e) = state_m e"
  "is_quorum (emit x e) = is_quorum e"
  "final_weight (emit x e) = final_weight e"
  by (simp_all add: emit_def)


lemma confirm_if_quorum_frame:
  assumes "confirm_if_quorum n e = Inr e'"
  shows "last_blocks e' = last_blocks e"
    and "last_votes e' = last_votes e
         \<or> (node_voting n
             \<and> last_votes e' = fold AList.delete
                  (history_votes n (block_hash (status_winner (status e)))) (last_votes e))"
    and "status_winner (status e') = status_winner (status e)
         \<or> (\<exists>w. (w, status_winner (status e')) \<in> set (fst (tally_impl n e)))"
proof -
  obtain tally_l e1 where t: "tally_impl n e = (tally_l, e1)"
    by (cases "tally_impl n e")
  have e1: "last_votes e1 = last_votes e" "last_blocks e1 = last_blocks e" "status e1 = status e"
    using tally_impl_fields [of n e] by (simp_all add: t)
  from assms obtain w b rest where tl: "tally_l = (w, b) # rest"
    by (cases tally_l) (auto simp: confirm_if_quorum_def t)
  show "last_blocks e' = last_blocks e"
    using assms e1
    by (auto simp: confirm_if_quorum_def t tl Let_def split: sum.splits bool.splits if_splits)
  show "last_votes e' = last_votes e
         \<or> (node_voting n
             \<and> last_votes e' = fold AList.delete
                  (history_votes n (block_hash (status_winner (status e)))) (last_votes e))"
    using assms e1
    by (auto simp: confirm_if_quorum_def t tl Let_def split: sum.splits bool.splits if_splits)
  show "status_winner (status e') = status_winner (status e)
         \<or> (\<exists>w. (w, status_winner (status e')) \<in> set (fst (tally_impl n e)))"
    using assms e1
    by (auto simp: confirm_if_quorum_def t tl Let_def split: sum.splits bool.splits if_splits)
qed

lemma tally_emplace_entries:
  "set (tally_emplace amount b xs) \<subseteq> insert (amount, b) (set xs)"
  by (induction xs) (auto split: if_splits)

lemma tally_fold_blocks:
  "\<forall>(w, b) \<in> set acc. b \<in> snd ` set bs \<Longrightarrow>
   \<forall>(w, b) \<in> set (fold (\<lambda>(h, amount) result.
        case map_of bs h of Some b \<Rightarrow> tally_emplace amount b result | None \<Rightarrow> result) ws acc).
     b \<in> snd ` set bs"
proof (induction ws arbitrary: acc)
  case Nil
  then show ?case by simp
next
  case (Cons x ws)
  obtain h amount where x: "x = (h, amount)" by (cases x)
  show ?case
  proof (cases "map_of bs h")
    case None
    with Cons x show ?thesis by simp
  next
    case (Some b)
    then have "b \<in> snd ` set bs"
      by (force dest: map_of_SomeD)
    with Cons.prems have "\<forall>(w, b') \<in> set (tally_emplace amount b acc). b' \<in> snd ` set bs"
      using tally_emplace_entries [of amount b acc] by auto
    from Cons.IH [OF this] x Some show ?thesis by simp
  qed
qed

lemma tally_of_blocks:
  "(w, b) \<in> set (tally_of bs ws) \<Longrightarrow> b \<in> snd ` set bs"
  using tally_fold_blocks [of "[]" bs ws] by (auto simp: tally_of_def)

lemma vote_cases:
  assumes "vote n e rep ts h src = Inr (r, e')"
  shows "(\<not> processed r \<and> e' = e)
         \<or> (vote_record n e rep ts h src = Inr (r, e')
             \<and> (\<forall>lv. map_of (last_votes e) rep = Some lv \<longrightarrow> timestamp lv \<le> ts))"
  using assms by (auto simp: vote_def Let_def split: if_splits option.splits)

lemma vote_record_frame:
  assumes "vote_record n e rep ts h src = Inr (r, e')"
  shows "last_blocks e' = last_blocks e"
    and "last_votes e' = AList.update rep \<lparr>time = steady_now n, timestamp = ts, hash = h\<rparr> (last_votes e)
         \<or> (node_voting n
             \<and> last_votes e' = fold AList.delete
                  (history_votes n (block_hash (status_winner (status e))))
                  (AList.update rep \<lparr>time = steady_now n, timestamp = ts, hash = h\<rparr> (last_votes e)))"
    and "status_winner (status e') = status_winner (status e)
         \<or> status_winner (status e') \<in> snd ` set (last_blocks e)"
proof -
  define e3 where "e3 = emit (Stats_inc_vote src)
      ((if src = live then emit (Live_vote_action rep) else id)
         (e\<lparr>last_votes := AList.update rep \<lparr>time = steady_now n, timestamp = ts, hash = h\<rparr> (last_votes e)\<rparr>))"
  have e3: "last_blocks e3 = last_blocks e" "status e3 = status e"
    "last_votes e3 = AList.update rep \<lparr>time = steady_now n, timestamp = ts, hash = h\<rparr> (last_votes e)"
    by (simp_all add: e3_def)
  have step: "e' = e3 \<or> confirm_if_quorum n e3 = Inr e'"
    using assms by (auto simp: vote_record_def e3_def Let_def split: if_splits sum.splits)
  show "last_blocks e' = last_blocks e"
    using step e3 confirm_if_quorum_frame(1) [of n e3 e'] by auto
  show "last_votes e' = AList.update rep \<lparr>time = steady_now n, timestamp = ts, hash = h\<rparr> (last_votes e)
         \<or> (node_voting n
             \<and> last_votes e' = fold AList.delete
                  (history_votes n (block_hash (status_winner (status e))))
                  (AList.update rep \<lparr>time = steady_now n, timestamp = ts, hash = h\<rparr> (last_votes e)))"
    using step e3 confirm_if_quorum_frame(2) [of n e3 e'] by auto
  have "status_winner (status e') = status_winner (status e3)
         \<or> (\<exists>w. (w, status_winner (status e')) \<in> set (fst (tally_impl n e3)))"
    using step confirm_if_quorum_frame(3) [of n e3 e'] by auto
  then show "status_winner (status e') = status_winner (status e)
         \<or> status_winner (status e') \<in> snd ` set (last_blocks e)"
    using e3 tally_of_blocks [of _ "status_winner (status e')" "last_blocks e3"]
    by (auto simp: fst_tally_impl)
qed

section \<open>Replayed votes\<close>





lemmas publish_eval =
  publish_def replace_by_weight_def remove_block_def max_blocks_def is_zero_def
  last_vote_timestamp_def



section \<open>The winner is a candidate block\<close>

lemma tracked_same:
  "tracked e \<Longrightarrow> last_blocks e' = last_blocks e \<Longrightarrow>
   status_winner (status e') = status_winner (status e) \<Longrightarrow> tracked e'"
  by (simp add: tracked_def blocks_keyed_def winner_tracked_def)

lemma tracked_promote:
  assumes "tracked e" and "last_blocks e' = last_blocks e"
    and "status_winner (status e') = status_winner (status e)
         \<or> status_winner (status e') \<in> snd ` set (last_blocks e)"
  shows "tracked e'"
proof -
  from assms(3) show ?thesis
  proof
    assume "status_winner (status e') = status_winner (status e)"
    with assms(1,2) show ?thesis by (auto intro: tracked_same)
  next
    assume "status_winner (status e') \<in> snd ` set (last_blocks e)"
    then obtain h where "(h, status_winner (status e')) \<in> set (last_blocks e)"
      by force
    moreover from this assms(1) have "block_hash (status_winner (status e')) = h"
      by (auto simp: tracked_def blocks_keyed_def list_all_iff)
    ultimately have "block_hash (status_winner (status e')) \<in> fst ` set (last_blocks e)"
      by force
    with assms(1,2) show ?thesis
      by (simp add: tracked_def blocks_keyed_def winner_tracked_def)
  qed
qed

lemma tracked_ctor: "tracked (election_ctor n block_a)"
  by (simp add: tracked_def blocks_keyed_def winner_tracked_def election_ctor_def)

lemma tracked_confirm_if_quorum:
  assumes "tracked e" and "confirm_if_quorum n e = Inr e'"
  shows "tracked e'"
proof (rule tracked_promote [OF assms(1)])
  show "last_blocks e' = last_blocks e"
    by (rule confirm_if_quorum_frame(1) [OF assms(2)])
  show "status_winner (status e') = status_winner (status e)
         \<or> status_winner (status e') \<in> snd ` set (last_blocks e)"
    using confirm_if_quorum_frame(3) [OF assms(2)]
      tally_of_blocks [of _ "status_winner (status e')" "last_blocks e"]
    by (auto simp: fst_tally_impl)
qed

lemma tracked_vote:
  assumes "tracked e" and "vote n e rep ts h src = Inr (r, e')"
  shows "tracked e'"
proof -
  from vote_cases [OF assms(2)] show ?thesis
  proof
    assume "\<not> processed r \<and> e' = e"
    with assms(1) show ?thesis by simp
  next
    assume "vote_record n e rep ts h src = Inr (r, e')
             \<and> (\<forall>lv. map_of (last_votes e) rep = Some lv \<longrightarrow> timestamp lv \<le> ts)"
    then have v: "vote_record n e rep ts h src = Inr (r, e')" by simp
    show ?thesis
      by (rule tracked_promote [OF assms(1) vote_record_frame(1) [OF v] vote_record_frame(3) [OF v]])
  qed
qed

lemma remove_block_winner [simp]:
  "status_winner (status (remove_block e hash_a)) = status_winner (status e)"
  by (simp add: remove_block_def emit_def split: option.splits)

lemma delete_keys_set: "fst ` set (AList.delete k al) = fst ` set al - {k}"
proof -
  have "set (map fst (AList.delete k al)) = set (removeAll k (map fst al))"
    by (simp only: AList.delete_keys)
  then show ?thesis by simp
qed

lemma remove_block_keys:
  "fst ` set (last_blocks (remove_block e hash_a)) =
     (if block_hash (status_winner (status e)) \<noteq> hash_a
      then fst ` set (last_blocks e) - {hash_a} else fst ` set (last_blocks e))"
proof (cases "map_of (last_blocks e) hash_a")
  case None
  then have "hash_a \<notin> fst ` set (last_blocks e)"
    by (simp add: map_of_eq_None_iff)
  with None show ?thesis
    by (simp add: remove_block_def)
next
  case (Some existing)
  then show ?thesis
    by (simp add: remove_block_def emit_def delete_keys_set)
qed

lemma remove_block_entries:
  "set (last_blocks (remove_block e hash_a)) \<subseteq> set (last_blocks e)"
  by (auto simp: remove_block_def emit_def AList.delete_eq split: option.splits)

lemma tracked_remove_block:
  assumes "tracked e"
  shows "tracked (remove_block e hash_a)"
proof -
  have keyed: "blocks_keyed (remove_block e hash_a)"
    using assms remove_block_entries [of e hash_a]
    by (auto simp: tracked_def blocks_keyed_def list_all_iff)
  have "winner_tracked (remove_block e hash_a)"
    using assms unfolding tracked_def winner_tracked_def
    by (auto simp: remove_block_keys)
  with keyed show ?thesis by (simp add: tracked_def)
qed

lemma replace_by_weight_cases:
  assumes "replace_by_weight n e hash_a = Inr (p, e')"
  shows "e' = e \<or> (\<exists>r. e' = remove_block (emit (Active_erase_hash r) e) r)"
  using assms
  by (auto simp: replace_by_weight_def Let_def split: sum.splits if_splits)

lemma tracked_emit: "tracked e \<Longrightarrow> tracked (emit x e)"
  by (rule tracked_same) simp_all

lemma tracked_replace_by_weight:
  assumes "tracked e" and "replace_by_weight n e hash_a = Inr (p, e')"
  shows "tracked e'"
  using replace_by_weight_cases [OF assms(2)] assms(1)
  by (auto intro: tracked_remove_block tracked_emit)

lemma tracked_confirm_once: "tracked e \<Longrightarrow> tracked (confirm_once n e t)"
  by (rule tracked_same) simp_all

lemma tracked_force_confirm:
  "tracked e \<Longrightarrow> force_confirm n e t = Inr e' \<Longrightarrow> tracked e'"
  by (auto simp: force_confirm_def tracked_confirm_once split: if_splits)

lemma tracked_state_change:
  "tracked e \<Longrightarrow> state_change n e expected_a desired_a = (p, e') \<Longrightarrow> tracked e'"
  by (auto simp: state_change_def split: if_splits intro: tracked_same)

lemma tracked_tally: "tracked e \<Longrightarrow> tracked (snd (tally_impl n e))"
  by (rule tracked_same) simp_all

lemma update_entries: "set (AList.update k v al) \<subseteq> insert (k, v) (set al)"
  by (induction al) auto

lemma tracked_publish:
  assumes "tracked e" and "publish n e block_a = Inr (p, e')"
  shows "tracked e'"
proof -
  define step1 where "step1 =
      (if \<not> election_confirmed n e \<and> length (last_blocks e) \<ge> max_blocks
          \<and> map_of (last_blocks e) (block_hash block_a) = None then
         (case replace_by_weight n e (block_hash block_a) of
            Inl err \<Rightarrow> Inl err
          | Inr (replaced, e1) \<Rightarrow>
              if \<not> replaced then Inr (True, emit (Publish_filter_clear block_a) e1)
              else Inr (election_confirmed n e, e1))
       else Inr (election_confirmed n e, e))"
  from assms(2) obtain result1 e1 where s1: "step1 = Inr (result1, e1)"
    by (cases step1) (auto simp: publish_def step1_def Let_def)
  have t1: "tracked e1"
    using s1 assms(1)
    by (auto simp: step1_def split: if_splits sum.splits
             dest!: tracked_replace_by_weight [OF assms(1)] intro: tracked_emit)
  have fin: "e' = e1
      \<or> (map_of (last_blocks e1) (block_hash block_a) = None
          \<and> e' = e1\<lparr>last_blocks := last_blocks e1 @ [(block_hash block_a, block_a)]\<rparr>)
      \<or> (e' = e1\<lparr>last_blocks := AList.update (block_hash block_a) block_a (last_blocks e1)\<rparr>
          \<and> block_hash (status_winner (status e1)) \<noteq> block_hash block_a)
      \<or> (e' = emit (Flood_block block_a)
                 (e1\<lparr>last_blocks := AList.update (block_hash block_a) block_a (last_blocks e1),
                     status := (status e1)\<lparr>status_winner := block_a\<rparr>\<rparr>)
          \<and> block_hash (status_winner (status e1)) = block_hash block_a)"
    using assms(2) s1 [unfolded step1_def]
    by (auto simp: publish_def Let_def split: if_splits option.splits)
  have keyed1: "\<forall>(h, b) \<in> set (last_blocks e1). block_hash b = h"
    using t1 by (simp add: tracked_def blocks_keyed_def list_all_iff)
  have win1: "block_hash (status_winner (status e1)) \<in> fst ` set (last_blocks e1)"
    using t1 by (simp add: tracked_def winner_tracked_def)
  have keyed_upd: "\<forall>(h, b) \<in> set (AList.update (block_hash block_a) block_a (last_blocks e1)).
      block_hash b = h"
    using keyed1 update_entries [of "block_hash block_a" block_a "last_blocks e1"] by auto
  from fin show ?thesis
  proof (elim disjE conjE)
    assume "e' = e1"
    with t1 show ?thesis by simp
  next
    assume "e' = e1\<lparr>last_blocks := last_blocks e1 @ [(block_hash block_a, block_a)]\<rparr>"
    with keyed1 win1 show ?thesis
      by (auto simp: tracked_def blocks_keyed_def winner_tracked_def list_all_iff)
  next
    assume "e' = e1\<lparr>last_blocks := AList.update (block_hash block_a) block_a (last_blocks e1)\<rparr>"
    with keyed_upd win1 show ?thesis
      by (auto simp: tracked_def blocks_keyed_def winner_tracked_def list_all_iff AList.dom_update)
  next
    assume "e' = emit (Flood_block block_a)
                 (e1\<lparr>last_blocks := AList.update (block_hash block_a) block_a (last_blocks e1),
                     status := (status e1)\<lparr>status_winner := block_a\<rparr>\<rparr>)"
    with keyed_upd show ?thesis
      by (auto simp: tracked_def blocks_keyed_def winner_tracked_def list_all_iff AList.dom_update)
  qed
qed

lemma reachable_tracked: "reachable e \<Longrightarrow> tracked e"
proof (induction rule: reachable.induct)
  case (reach_ctor n block_a)
  show ?case by (rule tracked_ctor)
next
  case (reach_vote e n rep ts h src r e')
  then show ?case by (auto intro: tracked_vote)
next
  case (reach_publish e n block_a p e')
  then show ?case by (auto intro: tracked_publish)
next
  case (reach_confirm_if_quorum e n e')
  then show ?case by (auto intro: tracked_confirm_if_quorum)
next
  case (reach_remove_block e hash_a)
  then show ?case by (auto intro: tracked_remove_block)
next
  case (reach_replace_by_weight e n hash_a p e')
  then show ?case by (auto intro: tracked_replace_by_weight)
next
  case (reach_force_confirm e n type_a e')
  then show ?case by (auto intro: tracked_force_confirm)
next
  case (reach_state_change e n expected_a desired_a p e')
  then show ?case by (auto intro: tracked_state_change)
next
  case (reach_tally e n)
  then show ?case by (auto intro: tracked_tally)
next
  case (reach_other e e')
  then show ?case by (auto intro: tracked_same)
qed

lemma run_calls_reachable:
  "reachable e \<Longrightarrow> run_calls calls e = Inr e' \<Longrightarrow> reachable e'"
proof (induction calls arbitrary: e)
  case Nil
  then show ?case by simp
next
  case (Cons c calls)
  show ?case
  proof (cases c)
    case (Call_vote n rep ts h src)
    with Cons.prems(2) obtain r e1 where v: "vote n e rep ts h src = Inr (r, e1)"
      and rest: "run_calls calls e1 = Inr e'"
      by (auto split: sum.splits)
    from reach_vote [OF Cons.prems(1) v] rest show ?thesis
      by (rule Cons.IH)
  next
    case (Call_publish n b)
    with Cons.prems(2) obtain p e1 where v: "publish n e b = Inr (p, e1)"
      and rest: "run_calls calls e1 = Inr e'"
      by (auto split: sum.splits)
    from reach_publish [OF Cons.prems(1) v] rest show ?thesis
      by (rule Cons.IH)
  qed
qed

text \<open>
  Claim C9. In every reachable state of an election the hash of the status winner is a
  key of \<open>last_blocks\<close>. The constructor establishes it; \<open>confirm_if_quorum\<close> leaves
  \<open>last_blocks\<close> alone and promotes only a block that is an entry of it;
  \<open>remove_block\<close> does nothing when asked to remove the winner's hash and never
  removes the winner's key, also when \<open>replace_by_weight\<close> calls it.
\<close>

theorem winner_in_last_blocks:
  "(reachable e \<longrightarrow> block_hash (status_winner (status e)) \<in> fst ` set (last_blocks e))
   \<and> block_hash (status_winner (status (election_ctor n block_a)))
        \<in> fst ` set (last_blocks (election_ctor n block_a))
   \<and> (confirm_if_quorum n e = Inr e' \<longrightarrow>
        last_blocks e' = last_blocks e
        \<and> (status_winner (status e') = status_winner (status e)
            \<or> status_winner (status e') \<in> snd ` set (last_blocks e)))
   \<and> remove_block e (block_hash (status_winner (status e))) = e
   \<and> block_hash (status_winner (status (remove_block e hash_a)))
        = block_hash (status_winner (status e))
   \<and> (block_hash (status_winner (status e)) \<in> fst ` set (last_blocks e) \<longrightarrow>
        block_hash (status_winner (status e)) \<in> fst ` set (last_blocks (remove_block e hash_a)))
   \<and> (replace_by_weight n e hash_a = Inr (p, e'')
        \<and> block_hash (status_winner (status e)) \<in> fst ` set (last_blocks e) \<longrightarrow>
        block_hash (status_winner (status e'')) \<in> fst ` set (last_blocks e''))"
proof -
  have inv: "reachable e \<Longrightarrow> block_hash (status_winner (status e)) \<in> fst ` set (last_blocks e)"
    using reachable_tracked [of e] by (simp add: tracked_def winner_tracked_def)
  have ctor: "block_hash (status_winner (status (election_ctor n block_a)))
        \<in> fst ` set (last_blocks (election_ctor n block_a))"
    by (simp add: election_ctor_def)
  have promote: "confirm_if_quorum n e = Inr e' \<Longrightarrow>
        last_blocks e' = last_blocks e
        \<and> (status_winner (status e') = status_winner (status e)
            \<or> status_winner (status e') \<in> snd ` set (last_blocks e))"
    using confirm_if_quorum_frame(1,3) [of n e e']
      tally_of_blocks [of _ "status_winner (status e')" "last_blocks e"]
    by (auto simp: fst_tally_impl)
  have refuse: "remove_block e (block_hash (status_winner (status e))) = e"
    by (simp add: remove_block_def)
  have keep: "block_hash (status_winner (status e)) \<in> fst ` set (last_blocks e) \<Longrightarrow>
        block_hash (status_winner (status e)) \<in> fst ` set (last_blocks (remove_block e hash_a))"
    by (auto simp: remove_block_keys)
  have evict: "replace_by_weight n e hash_a = Inr (p, e'')
        \<and> block_hash (status_winner (status e)) \<in> fst ` set (last_blocks e) \<Longrightarrow>
        block_hash (status_winner (status e'')) \<in> fst ` set (last_blocks e'')"
  proof -
    assume a: "replace_by_weight n e hash_a = Inr (p, e'')
        \<and> block_hash (status_winner (status e)) \<in> fst ` set (last_blocks e)"
    then have w: "block_hash (status_winner (status e)) \<in> fst ` set (last_blocks e)"
      by simp
    from a have "replace_by_weight n e hash_a = Inr (p, e'')"
      by simp
    then have "e'' = e \<or> (\<exists>r. e'' = remove_block (emit (Active_erase_hash r) e) r)"
      by (rule replace_by_weight_cases)
    then show ?thesis
    proof
      assume "e'' = e"
      with w show ?thesis by simp
    next
      assume "\<exists>r. e'' = remove_block (emit (Active_erase_hash r) e) r"
      then obtain r where r: "e'' = remove_block (emit (Active_erase_hash r) e) r"
        by blast
      have k: "fst ` set (last_blocks e'') =
          (if block_hash (status_winner (status e)) \<noteq> r
           then fst ` set (last_blocks e) - {r} else fst ` set (last_blocks e))"
        unfolding r by (simp add: remove_block_keys)
      have wn: "block_hash (status_winner (status e'')) = block_hash (status_winner (status e))"
        unfolding r by simp
      show ?thesis
        unfolding wn k using w
        by (cases "block_hash (status_winner (status e)) = r") simp_all
    qed
  qed
  show ?thesis
    using inv ctor promote refuse keep evict by simp
qed

theorem winner_in_last_blocks_witness:
  "reachable (election_ctor example_node (example_block 1))
   \<and> reachable (projr (run_calls [Call_publish example_node (example_block 2),
                                  Call_vote example_node 7 10 1 live,
                                  Call_vote example_node 8 1 2 live]
                         (election_ctor example_node (example_block 1))))
   \<and> block_hash (status_winner (status
        (projr (run_calls [Call_publish example_node (example_block 2),
                           Call_vote example_node 7 10 1 live,
                           Call_vote example_node 8 1 2 live]
                  (election_ctor example_node (example_block 1)))))) = 2
   \<and> set (map fst (last_blocks
        (projr (run_calls [Call_publish example_node (example_block 2),
                           Call_vote example_node 7 10 1 live,
                           Call_vote example_node 8 1 2 live]
                  (election_ctor example_node (example_block 1)))))) = {1, 2}"
proof -
  have start: "reachable (election_ctor example_node (example_block 1))"
    by (rule reach_ctor)
  have run: "run_calls [Call_publish example_node (example_block 2),
                        Call_vote example_node 7 10 1 live,
                        Call_vote example_node 8 1 2 live]
               (election_ctor example_node (example_block 1))
             = Inr (projr (run_calls [Call_publish example_node (example_block 2),
                                      Call_vote example_node 7 10 1 live,
                                      Call_vote example_node 8 1 2 live]
                             (election_ctor example_node (example_block 1))))"
    by (simp add: election_eval publish_eval)
  have later: "reachable (projr (run_calls [Call_publish example_node (example_block 2),
                                  Call_vote example_node 7 10 1 live,
                                  Call_vote example_node 8 1 2 live]
                         (election_ctor example_node (example_block 1))))"
    by (rule run_calls_reachable [OF start run])
  show ?thesis
    using start later
      winner_in_last_blocks
        [where e = "projr (run_calls [Call_publish example_node (example_block 2),
                                  Call_vote example_node 7 10 1 live,
                                  Call_vote example_node 8 1 2 live]
                         (election_ctor example_node (example_block 1)))"
           and n = example_node and block_a = "example_block 1" and hash_a = 1
           and e' = "election_ctor example_node (example_block 1)"
           and e'' = "election_ctor example_node (example_block 1)" and p = False]
    by (simp add: election_eval publish_eval)
qed

section \<open>Leaving a terminal state\<close>

lemma confirm_once_state [simp]: "state_m (confirm_once n e t) = confirmed"
  by (simp add: confirm_once_def emit_def Let_def)

lemma remove_votes_state [simp]: "state_m (remove_votes n e h) = state_m e"
  by (simp add: remove_votes_def emit_def)

lemma remove_block_state [simp]: "state_m (remove_block e h) = state_m e"
  by (simp add: remove_block_def emit_def split: option.splits)

lemma confirm_if_quorum_state:
  assumes "confirm_if_quorum n e = Inr e'"
  shows "state_m e' = state_m e \<or> state_m e' = confirmed"
proof -
  obtain tally_l e1 where t: "tally_impl n e = (tally_l, e1)"
    by (cases "tally_impl n e")
  have e1: "state_m e1 = state_m e"
    using tally_impl_fields(4) [of n e] by (simp add: t)
  from assms obtain w b rest where tl: "tally_l = (w, b) # rest"
    by (cases tally_l) (auto simp: confirm_if_quorum_def t)
  show ?thesis
    using assms e1
    by (auto simp: confirm_if_quorum_def t tl Let_def split: sum.splits bool.splits if_splits)
qed

lemma vote_state:
  assumes "vote n e rep ts h src = Inr (r, e')"
  shows "state_m e' = state_m e \<or> state_m e' = confirmed"
proof -
  from vote_cases [OF assms] show ?thesis
  proof
    assume "\<not> processed r \<and> e' = e"
    then show ?thesis by simp
  next
    assume "vote_record n e rep ts h src = Inr (r, e')
             \<and> (\<forall>lv. map_of (last_votes e) rep = Some lv \<longrightarrow> timestamp lv \<le> ts)"
    then have v: "vote_record n e rep ts h src = Inr (r, e')" by simp
    define e3 where "e3 = emit (Stats_inc_vote src)
      ((if src = live then emit (Live_vote_action rep) else id)
         (e\<lparr>last_votes := AList.update rep \<lparr>time = steady_now n, timestamp = ts, hash = h\<rparr> (last_votes e)\<rparr>))"
    have e3: "state_m e3 = state_m e"
      by (simp add: e3_def)
    have "e' = e3 \<or> confirm_if_quorum n e3 = Inr e'"
      using v by (auto simp: vote_record_def e3_def Let_def split: if_splits sum.splits)
    with e3 confirm_if_quorum_state [of n e3 e'] show ?thesis by auto
  qed
qed

lemma replace_by_weight_state:
  "replace_by_weight n e hash_a = Inr (p, e') \<Longrightarrow> state_m e' = state_m e"
  by (auto dest!: replace_by_weight_cases)

lemma publish_state:
  assumes "publish n e block_a = Inr (p, e')"
  shows "state_m e' = state_m e"
proof -
  define step1 where "step1 =
      (if \<not> election_confirmed n e \<and> length (last_blocks e) \<ge> max_blocks
          \<and> map_of (last_blocks e) (block_hash block_a) = None then
         (case replace_by_weight n e (block_hash block_a) of
            Inl err \<Rightarrow> Inl err
          | Inr (replaced, e1) \<Rightarrow>
              if \<not> replaced then Inr (True, emit (Publish_filter_clear block_a) e1)
              else Inr (election_confirmed n e, e1))
       else Inr (election_confirmed n e, e))"
  from assms obtain result1 e1 where s1: "step1 = Inr (result1, e1)"
    by (cases step1) (auto simp: publish_def step1_def Let_def)
  have t1: "state_m e1 = state_m e"
    using s1
    by (auto simp: step1_def split: if_splits sum.splits dest!: replace_by_weight_state)
  have "state_m e' = state_m e1"
    using assms s1 [unfolded step1_def]
    by (auto simp: publish_def Let_def emit_def split: if_splits option.splits)
  with t1 show ?thesis by simp
qed

text \<open>
  Claim C3, amended. \<open>valid_change\<close> accepts exactly the six pairs passive to active,
  passive to confirmed, passive to expired_unconfirmed, active to confirmed, active to
  expired_unconfirmed and confirmed to expired_confirmed. A state change that succeeds
  was asked for one of them, any other pair is rejected and leaves the election as it
  was, and no state change leaves \<open>expired_unconfirmed\<close> or \<open>expired_confirmed\<close>.
  The state is written in one more place: \<open>confirm_once\<close> stores \<open>confirmed\<close> whatever
  the state was. So \<open>force_confirm\<close> ends in \<open>confirmed\<close>, a call of
  \<open>confirm_if_quorum\<close> or \<open>vote\<close> leaves the state as it was or ends in \<open>confirmed\<close>,
  and \<open>publish\<close> leaves the state as it was.
\<close>

theorem state_change_only_legal:
  "(valid_change expected_a desired_a \<longleftrightarrow>
      (expected_a, desired_a) \<in>
        {(passive, active), (passive, confirmed), (passive, expired_unconfirmed),
         (active, confirmed), (active, expired_unconfirmed), (confirmed, expired_confirmed)})
   \<and> (\<not> fst (state_change n e expected_a desired_a) \<longrightarrow>
        (expected_a, desired_a) \<in>
          {(passive, active), (passive, confirmed), (passive, expired_unconfirmed),
           (active, confirmed), (active, expired_unconfirmed), (confirmed, expired_confirmed)})
   \<and> ((expected_a, desired_a) \<notin>
          {(passive, active), (passive, confirmed), (passive, expired_unconfirmed),
           (active, confirmed), (active, expired_unconfirmed), (confirmed, expired_confirmed)} \<longrightarrow>
        state_change n e expected_a desired_a = (True, e))
   \<and> (state_m e \<in> {expired_unconfirmed, expired_confirmed} \<longrightarrow>
        state_change n e expected_a desired_a = (True, e))
   \<and> state_m (confirm_once n e type_a) = confirmed
   \<and> (force_confirm n e type_a = Inr e' \<longrightarrow> state_m e' = confirmed)
   \<and> (confirm_if_quorum n e = Inr e' \<longrightarrow> state_m e' = state_m e \<or> state_m e' = confirmed)
   \<and> (vote n e rep ts h src = Inr (r, e') \<longrightarrow> state_m e' = state_m e \<or> state_m e' = confirmed)
   \<and> (publish n e block_a = Inr (p, e') \<longrightarrow> state_m e' = state_m e)"
proof -
  have table: "valid_change expected_a desired_a \<longleftrightarrow>
      (expected_a, desired_a) \<in>
        {(passive, active), (passive, confirmed), (passive, expired_unconfirmed),
         (active, confirmed), (active, expired_unconfirmed), (confirmed, expired_confirmed)}"
    by (rule valid_change_iff)
  have terminal: "state_m e \<in> {expired_unconfirmed, expired_confirmed} \<Longrightarrow>
      state_change n e expected_a desired_a = (True, e)"
    by (cases expected_a) (auto simp: state_change_def)
  have changes: "(\<not> fst (state_change n e expected_a desired_a) \<longrightarrow> valid_change expected_a desired_a)
      \<and> (\<not> valid_change expected_a desired_a \<longrightarrow> state_change n e expected_a desired_a = (True, e))"
    by (simp add: state_change_def)
  have forced: "force_confirm n e type_a = Inr e' \<Longrightarrow> state_m e' = confirmed"
    by (auto simp: force_confirm_def split: if_splits)
  have quorum: "confirm_if_quorum n e = Inr e' \<Longrightarrow> state_m e' = state_m e \<or> state_m e' = confirmed"
    by (rule confirm_if_quorum_state)
  have voted: "vote n e rep ts h src = Inr (r, e') \<Longrightarrow> state_m e' = state_m e \<or> state_m e' = confirmed"
    by (rule vote_state)
  have published: "publish n e block_a = Inr (p, e') \<Longrightarrow> state_m e' = state_m e"
    by (rule publish_state)
  show ?thesis
    using table terminal changes forced quorum voted published confirm_once_state [of n e type_a]
    by blast
qed


theorem state_change_only_legal_witness:
  "valid_change passive active
   \<and> \<not> fst (state_change example_node (election_ctor example_node (example_block 1)) passive active)
   \<and> state_change example_node (election_ctor example_node (example_block 1)) active passive
       = (True, election_ctor example_node (example_block 1))
   \<and> state_m ((election_ctor example_node (example_block 1))\<lparr>state_m := expired_confirmed\<rparr>)
       \<in> {expired_unconfirmed, expired_confirmed}
   \<and> state_change example_node
        ((election_ctor example_node (example_block 1))\<lparr>state_m := expired_confirmed\<rparr>)
        expired_confirmed passive
       = (True, (election_ctor example_node (example_block 1))\<lparr>state_m := expired_confirmed\<rparr>)
   \<and> vote example_node (election_ctor example_node (example_block 1)) 7 1 1 live
       = Inr (projr (vote example_node (election_ctor example_node (example_block 1)) 7 1 1 live))
   \<and> state_m (snd (projr (vote example_node (election_ctor example_node (example_block 1)) 7 1 1 live)))
       = passive
   \<and> publish example_node (election_ctor example_node (example_block 1)) (example_block 2)
       = Inr (projr (publish example_node (election_ctor example_node (example_block 1)) (example_block 2)))
   \<and> state_m (snd (projr (publish example_node (election_ctor example_node (example_block 1))
                             (example_block 2)))) = passive"
  using state_change_only_legal
          [where expected_a = "passive" and desired_a = active and n = example_node
             and e = "election_ctor example_node (example_block 1)"
             and type_a = active_confirmed_quorum and rep = 7 and ts = 1 and h = 1 and src = live
             and r = "fst (projr (vote example_node (election_ctor example_node (example_block 1)) 7 1 1 live))"
             and e' = "snd (projr (vote example_node (election_ctor example_node (example_block 1)) 7 1 1 live))"
             and block_a = "example_block 2" and p = False]
        state_change_only_legal
          [where expected_a = active and desired_a = "passive" and n = example_node
             and e = "election_ctor example_node (example_block 1)"
             and type_a = active_confirmed_quorum and rep = 7 and ts = 1 and h = 1 and src = live
             and r = "fst (projr (vote example_node (election_ctor example_node (example_block 1)) 7 1 1 live))"
             and e' = "snd (projr (publish example_node (election_ctor example_node (example_block 1))
                                     (example_block 2)))"
             and block_a = "example_block 2" and p = False]
        state_change_only_legal
          [where expected_a = expired_confirmed and desired_a = "passive" and n = example_node
             and e = "(election_ctor example_node (example_block 1))\<lparr>state_m := expired_confirmed\<rparr>"
             and type_a = active_confirmed_quorum and rep = 7 and ts = 1 and h = 1 and src = live
             and r = "\<lparr>replay = False, processed = True\<rparr>"
             and e' = "election_ctor example_node (example_block 1)"
             and block_a = "example_block 2" and p = False]
  by (simp add: election_eval publish_eval state_change_def)

text \<open>
  Claim C3 as stated fails: the terminal states are left. An election that a state
  change has moved to \<open>expired_unconfirmed\<close> is \<open>confirmed\<close> after two votes that
  reach the quorum, and an election that was confirmed and then moved to
  \<open>expired_confirmed\<close> is \<open>confirmed\<close> again after one more vote.
\<close>

theorem terminal_state_left_counterexample:
  "state_change example_node (election_ctor example_node (example_block 1))
       passive expired_unconfirmed
     = (False, (election_ctor example_node (example_block 1))\<lparr>state_m := expired_unconfirmed\<rparr>)
   \<and> (case run_calls [Call_vote example_node 7 1 1 live, Call_vote example_node 8 1 1 live]
              ((election_ctor example_node (example_block 1))\<lparr>state_m := expired_unconfirmed\<rparr>) of
         Inr e \<Rightarrow> state_m e = confirmed
       | Inl err \<Rightarrow> False)
   \<and> state_m (snd (state_change example_node
        (projr (run_calls [Call_vote example_node 7 1 1 live, Call_vote example_node 8 1 1 live]
                  (election_ctor example_node (example_block 1))))
        confirmed expired_confirmed)) = expired_confirmed
   \<and> (case run_calls
              [Call_vote (example_node\<lparr>steady_now := 30000000000,
                                        election_winner_details_count := (\<lambda>h. 1)\<rparr>) 8 2 1 live]
              (snd (state_change example_node
                 (projr (run_calls [Call_vote example_node 7 1 1 live,
                                    Call_vote example_node 8 1 1 live]
                           (election_ctor example_node (example_block 1))))
                 confirmed expired_confirmed)) of
         Inr e \<Rightarrow> state_m e = confirmed
       | Inl err \<Rightarrow> False)"
  by (simp add: election_eval publish_eval state_change_def duration_cast_milliseconds_def)

section \<open>Final votes and the cooldown\<close>
















end
